theory Spec2Isabelle
  imports Main
begin

section \<open>The component store of \<open>uri.h\<close>\<close>

text \<open>
  \<open>uri.h\<close> keeps one URI as an array of eight C strings, \<open>char *data[URI_END]\<close>,
  indexed by the enumeration \<open>uri_element_t\<close>. Slot \<open>BUILD\<close> (index 0) holds the
  string last produced by \<open>uri_build\<close>; the other seven hold the components.

  Conventions of the model.
  \<^item> A C string is the list of its characters before the terminating NUL, so the end
    of the list is the terminator: \<open>*p\<close> is false exactly when the list from \<open>p\<close> on
    is empty.
  \<^item> A \<open>char *\<close> slot is a \<open>string option\<close>, \<open>None\<close> for \<open>NULL\<close>. The store owns a
    private copy of every string (\<open>copy_string\<close>), so a slot is modelled by the
    text it points to.
  \<^item> A pointer into the input (\<open>current\<close>, \<open>working\<close>) is the rest of the input
    from that position on; \<open>to - from\<close> is the difference of the two lengths.
  \<^item> \<open>URI_END\<close> is the length of the array, not a slot: the type of slot names has
    the eight names below it, and an index outside the array is not modelled.
  \<^item> The length of a string is a natural number, as \<open>strlen\<close> returns it in a
    \<open>size_t\<close>. The counter \<open>n\<close> of \<open>uri_build\<close> is an \<open>int\<close> of 32 bits: storing a
    \<open>size_t\<close> into it keeps the low 32 bits, read in two's complement.
  \<^item> \<open>malloc\<close> is assumed to return storage whenever it is asked for at most
    \<open>INT_MAX\<close> bytes or for the copy of a string.
  \<^item> Reading through a \<open>NULL\<close> pointer, writing outside a buffer and overflowing
    an \<open>int\<close> are undefined in C; the model returns them as faults.
\<close>

datatype uri_element_t =
  BUILD | SCHEME | USERINFO | HOST | PORT | PATH | QUERY | FRAGMENT

record uri_t =
  data :: "uri_element_t \<Rightarrow> string option"

definition URI_END :: nat where
  "URI_END = 8"

datatype fault = NullRead | Overrun | Overflow

text \<open>\<open>calloc( 1, sizeof( uri_t ) )\<close> (line 195): every slot is \<open>NULL\<close>.\<close>

definition calloc_uri :: uri_t where
  "calloc_uri = \<lparr>data = (\<lambda>e. None)\<rparr>"

text \<open>The macro \<open>copy_string\<close> (lines 62-74): a fresh copy, or \<open>NULL\<close> for \<open>NULL\<close>.\<close>

definition copy_string :: "string option \<Rightarrow> string option" where
  "copy_string source = (case source of Some s \<Rightarrow> Some s | None \<Rightarrow> None)"

text \<open>\<open>uri_set\<close> (lines 77-86): the copy replaces the slot's content.\<close>

definition uri_set :: "uri_t \<Rightarrow> uri_element_t \<Rightarrow> string option \<Rightarrow> uri_t" where
  "uri_set u e d = (let c = copy_string d in u\<lparr>data := (data u)(e := c)\<rparr>)"

subsection \<open>The builder\<close>

text \<open>The largest \<open>int\<close>, and the \<open>int\<close> that a \<open>size_t\<close> value becomes when stored.\<close>

definition INT_MAX :: int where
  "INT_MAX = 2147483647"

definition to_int :: "int \<Rightarrow> int" where
  "to_int k = (k + 2147483648) mod 4294967296 - 2147483648"

text \<open>
  The statement \<open>if( slot ) n += strlen( slot ) + k;\<close>. The sum is computed in
  \<open>size_t\<close> and stored into the \<open>int\<close>.
\<close>

definition add_length :: "int \<Rightarrow> string option \<Rightarrow> nat \<Rightarrow> int" where
  "add_length n slot k =
     (case slot of Some s \<Rightarrow> to_int (n + int (length s + k)) | None \<Rightarrow> n)"

text \<open>
  Lines 110-136 of \<open>uri_build\<close>: the counter \<open>n\<close>, one guarded addition per slot.
\<close>

definition build_length :: "uri_t \<Rightarrow> int" where
  "build_length u =
     (let n = 0;
          n = add_length n (data u SCHEME) 1;
          n = add_length n (data u USERINFO) 1;
          n = add_length n (data u HOST) 2;
          n = add_length n (data u PORT) 1;
          n = add_length n (data u PATH) 0;
          n = add_length n (data u QUERY) 1;
          n = add_length n (data u FRAGMENT) 1
      in n)"

text \<open>
  Lines 138-176: the text written into the buffer by \<open>strcpy\<close> and the \<open>strcat\<close>
  calls, given the scheme that line 142 reads.
\<close>

definition build_text :: "uri_t \<Rightarrow> string \<Rightarrow> string" where
  "build_text u scheme =
     (let build = scheme;
          build = build @ '':'';
          build =
            (case data u HOST of
               None \<Rightarrow> build
             | Some host \<Rightarrow>
                 (let build = build @ ''//'';
                      build =
                        (case data u USERINFO of
                           None \<Rightarrow> build
                         | Some userinfo \<Rightarrow> (build @ userinfo) @ ''@'');
                      build = build @ host;
                      build =
                        (case data u PORT of
                           None \<Rightarrow> build
                         | Some port \<Rightarrow> (build @ '':'') @ port)
                  in build));
          build = (case data u PATH of None \<Rightarrow> build | Some path \<Rightarrow> build @ path);
          build = (case data u QUERY of None \<Rightarrow> build | Some query \<Rightarrow> (build @ ''?'') @ query);
          build =
            (case data u FRAGMENT of
               None \<Rightarrow> build
             | Some fragment \<Rightarrow> (build @ ''#'') @ fragment)
      in build)"

text \<open>
  \<open>uri_build\<close> (lines 108-179). Line 138 asks \<open>malloc\<close> for \<open>n + 1\<close> bytes and line
  139 writes \<open>build[n]\<close>: with \<open>n = INT_MAX\<close> the sum overflows, and with a negative
  \<open>n\<close> the write is outside whatever \<open>malloc\<close> returned. Line 142 copies from the
  scheme slot without a test, so a \<open>NULL\<close> scheme is a read through \<open>NULL\<close>. The
  buffer has \<open>n + 1\<close> bytes and the calls only append, so the text fits exactly when
  its final length is at most \<open>n\<close>.
\<close>

definition uri_build :: "uri_t \<Rightarrow> fault + uri_t" where
  "uri_build u =
     (let n = build_length u in
      if n < 0 \<or> n = INT_MAX then Inl Overflow
      else
        case data u SCHEME of
          None \<Rightarrow> Inl NullRead
        | Some scheme \<Rightarrow>
            (let build = build_text u scheme in
             if int (length build) \<le> n
             then Inr (u\<lparr>data := (data u)(BUILD := Some build)\<rparr>)
             else Inl Overrun))"

text \<open>\<open>uri_get\<close> (lines 89-96): build, then hand out a copy of the \<open>BUILD\<close> slot.\<close>

definition uri_get :: "uri_t \<Rightarrow> fault + (string option \<times> uri_t)" where
  "uri_get u =
     (case uri_build u of
        Inl f \<Rightarrow> Inl f
      | Inr u' \<Rightarrow> Inr (copy_string (data u' BUILD), u'))"

text \<open>
  \<open>uri_remove\<close> (lines 99-105) saves the slot's pointer, calls
  \<open>uri_set( u, e, NULL )\<close> and returns the saved pointer. Line 83 of \<open>uri_set\<close> has
  by then freed the storage behind it, so what the caller receives is either \<open>NULL\<close>
  or a pointer to released storage that used to hold the slot's text.
\<close>

datatype returned_ptr = Null | Released string

definition uri_remove :: "uri_t \<Rightarrow> uri_element_t \<Rightarrow> returned_ptr \<times> uri_t" where
  "uri_remove u e =
     (let data' = (case data u e of None \<Rightarrow> Null | Some s \<Rightarrow> Released s)
      in (data', uri_set u e None))"

text \<open>
  \<open>uri_print\<close> (lines 302-306): the \<open>BUILD\<close> slot, if any, is appended to the
  standard output; nothing is rebuilt.
\<close>

definition uri_print :: "uri_t \<Rightarrow> string \<Rightarrow> string" where
  "uri_print u stdout = (case data u BUILD of Some b \<Rightarrow> stdout @ b | None \<Rightarrow> stdout)"

subsection \<open>The parser\<close>

text \<open>\<open>strchr\<close>: the rest of the string from the first occurrence of \<open>c\<close> on.\<close>

fun strchr :: "string \<Rightarrow> char \<Rightarrow> string option" where
  "strchr [] c = (if c = CHR 0x00 then Some [] else None)"
| "strchr (x # xs) c = (if x = c then Some (x # xs) else strchr xs c)"

text \<open>\<open>copy_substring\<close> (lines 182-189): the \<open>to - from\<close> characters at \<open>from\<close>.\<close>

definition copy_substring :: "string \<Rightarrow> string \<Rightarrow> string" where
  "copy_substring from to = take (length from - length to) from"

text \<open>
  The scanning loops \<open>while( *working && ... ) working++\<close>: \<open>go\<close> is the test on
  the character under the cursor, after \<open>*working\<close>.
\<close>

fun scan :: "(char \<Rightarrow> bool) \<Rightarrow> string \<Rightarrow> string" where
  "scan go [] = []"
| "scan go (c # working) = (if go c then scan go working else c # working)"

text \<open>\<open>*working == c\<close> for a character \<open>c\<close> other than NUL.\<close>

definition at_char :: "string \<Rightarrow> char \<Rightarrow> bool" where
  "at_char working c = (case working of [] \<Rightarrow> False | x # _ \<Rightarrow> x = c)"

text \<open>
  Lines 265-298 of \<open>uri_parse\<close>: path, query and fragment, with \<open>current\<close> and
  \<open>working\<close> as the two branches of the authority test leave them. Line 270 returns
  at the end of the input; line 296 builds.
\<close>

definition uri_parse_path :: "uri_t \<Rightarrow> string \<Rightarrow> string \<Rightarrow> fault + uri_t option" where
  "uri_parse_path uri current working =
     (let uri = uri_set uri PATH (Some (copy_substring current working)) in
      if working = [] then Inr (Some uri)
      else
        (let current = working;
             (uri, current, working) =
               (if at_char working CHR ''?''
                then
                  (let working = scan (\<lambda>c. c \<noteq> CHR ''#'') working;
                       uri = uri_set uri QUERY (Some (copy_substring current working))
                   in (uri, working, working))
                else (uri, current, working));
             uri =
               (if at_char working CHR ''#''
                then
                  (let working = scan (\<lambda>c. True) working
                   in uri_set uri FRAGMENT (Some (copy_substring current working)))
                else uri)
         in case uri_build uri of Inl f \<Rightarrow> Inl f | Inr uri \<Rightarrow> Inr (Some uri)))"

text \<open>
  Lines 238-257: the port and the scan of the path, entered after the host with
  \<open>working\<close> not at the end of the input. Line 252 returns at the end of the input.
\<close>

definition uri_parse_port :: "uri_t \<Rightarrow> string \<Rightarrow> fault + uri_t option" where
  "uri_parse_port uri working =
     (let (uri, working) =
            (if at_char working CHR '':''
             then
               (let working = tl working;
                    current = working;
                    working = scan (\<lambda>c. c \<noteq> CHR ''/'') working
                in (uri_set uri PORT (Some (copy_substring current working)), working))
             else (uri, working))
      in
        if working = [] then Inr (Some uri)
        else
          (let current = working;
               working = scan (\<lambda>c. c \<noteq> CHR ''?'' \<and> c \<noteq> CHR ''#'') working
           in uri_parse_path uri current working))"

text \<open>
  Lines 213-236: userinfo and host, entered with \<open>working\<close> just after \<open>//\<close>. Line
  236 returns at the end of the input.
\<close>

definition uri_parse_authority :: "uri_t \<Rightarrow> string \<Rightarrow> fault + uri_t option" where
  "uri_parse_authority uri working =
     (let current = working;
          working =
            scan (\<lambda>c. c \<noteq> CHR ''@'' \<and> c \<noteq> CHR '':'' \<and> c \<noteq> CHR ''/'') working;
          (uri, current, working) =
            (if at_char working CHR ''@''
             then
               (let uri = uri_set uri USERINFO (Some (copy_substring current working));
                    working = tl working;
                    current = working;
                    working = scan (\<lambda>c. c \<noteq> CHR '':'' \<and> c \<noteq> CHR ''/'') working
                in (uri, current, working))
             else (uri, current, working));
          uri = uri_set uri HOST (Some (copy_substring current working))
      in
        if working = [] then Inr (Some uri)
        else uri_parse_port uri working)"

text \<open>
  \<open>uri_parse\<close> (lines 193-299). \<open>Inr None\<close> is the \<open>NULL\<close> of line 205,
  \<open>Inr (Some uri)\<close> a returned store.
\<close>

definition uri_parse :: "string \<Rightarrow> fault + uri_t option" where
  "uri_parse uri_s =
     (let uri = calloc_uri;
          current = uri_s
      in
        case strchr current CHR '':'' of
          None \<Rightarrow> Inr None
        | Some working \<Rightarrow>
            (let uri = uri_set uri SCHEME (Some (copy_substring current working));
                 working = tl working;
                 current = working
             in
               if at_char working CHR ''/'' \<and> at_char (tl working) CHR ''/''
               then uri_parse_authority uri (tl (tl working))
               else
                 (let working = scan (\<lambda>c. c \<noteq> CHR ''/'') working
                  in uri_parse_path uri current working)))"

subsection \<open>Observing a store\<close>

text \<open>
  The slots in the order of the enumeration, as the loop of \<open>uri_print_elements\<close>
  (lines 309-324) visits them.
\<close>

definition uri_elements :: "uri_t \<Rightarrow> string option list" where
  "uri_elements u = map (data u) [BUILD, SCHEME, USERINFO, HOST, PORT, PATH, QUERY, FRAGMENT]"

subsection \<open>The canonical string of the specification\<close>

text \<open>
  Section 4.3 of the specification, in its words: the scheme and \<open>:\<close>; if the host is
  present \<open>//\<close>, the userinfo and \<open>@\<close> if the userinfo is present, the host, \<open>:\<close> and
  the port if the port is present; the path if present; \<open>?\<close> and the query if present;
  \<open>#\<close> and the fragment if present.
\<close>

definition canonical :: "string \<Rightarrow> uri_t \<Rightarrow> string" where
  "canonical scheme u =
     scheme @ '':'' @
     (case data u HOST of
        None \<Rightarrow> []
      | Some host \<Rightarrow>
          ''//'' @ (case data u USERINFO of None \<Rightarrow> [] | Some userinfo \<Rightarrow> userinfo @ ''@'') @
          host @ (case data u PORT of None \<Rightarrow> [] | Some port \<Rightarrow> '':'' @ port)) @
     (case data u PATH of None \<Rightarrow> [] | Some path \<Rightarrow> path) @
     (case data u QUERY of None \<Rightarrow> [] | Some query \<Rightarrow> ''?'' @ query) @
     (case data u FRAGMENT of None \<Rightarrow> [] | Some fragment \<Rightarrow> ''#'' @ fragment)"

subsection \<open>The stored text\<close>

text \<open>
  For the statements about the parser and the builder: the text of a slot, empty for
  \<open>NULL\<close>; the userinfo with the \<open>@\<close> and the port with the \<open>:\<close> that the parser
  steps over; the sum that the counter of \<open>uri_build\<close> would hold if an \<open>int\<close> had no
  bound; and the two ways in which \<open>uri_parse\<close> returns a store, as it is (lines 236,
  252, 270) or after \<open>uri_build\<close> (lines 296-298).
\<close>

definition slot_text :: "uri_t \<Rightarrow> uri_element_t \<Rightarrow> string" where
  "slot_text u e = (case data u e of None \<Rightarrow> [] | Some t \<Rightarrow> t)"

definition userinfo_text :: "uri_t \<Rightarrow> string" where
  "userinfo_text u = (case data u USERINFO of None \<Rightarrow> [] | Some userinfo \<Rightarrow> userinfo @ ''@'')"

definition port_text :: "uri_t \<Rightarrow> string" where
  "port_text u = (case data u PORT of None \<Rightarrow> [] | Some port \<Rightarrow> '':'' @ port)"

definition add_count :: "nat \<Rightarrow> string option \<Rightarrow> nat \<Rightarrow> nat" where
  "add_count n slot k = (case slot of Some s \<Rightarrow> n + (length s + k) | None \<Rightarrow> n)"

definition counted_length :: "uri_t \<Rightarrow> nat" where
  "counted_length u =
     add_count (add_count (add_count (add_count (add_count (add_count (add_count 0
       (data u SCHEME) 1) (data u USERINFO) 1) (data u HOST) 2) (data u PORT) 1)
       (data u PATH) 0) (data u QUERY) 1) (data u FRAGMENT) 1"

definition parse_return :: "bool \<Rightarrow> uri_t \<Rightarrow> fault + uri_t option" where
  "parse_return early uri =
     (if early then Inr (Some uri)
      else case uri_build uri of Inl f \<Rightarrow> Inl f | Inr uri \<Rightarrow> Inr (Some uri))"

section \<open>Basic facts\<close>

lemma scan_dropWhile: "scan go w = dropWhile go w"
  by (induction w) simp_all

lemma copy_substring_dropWhile: "copy_substring w (dropWhile go w) = takeWhile go w"
proof -
  have "length (takeWhile go w @ dropWhile go w) = length w"
    by simp
  then have "length w - length (dropWhile go w) = length (takeWhile go w)"
    unfolding length_append by arith
  moreover have "take (length (takeWhile go w)) w = takeWhile go w"
    by (induction w) simp_all
  ultimately show ?thesis
    by (simp add: copy_substring_def)
qed

lemma copy_substring_scan: "copy_substring w (scan go w) = takeWhile go w"
  by (simp add: scan_dropWhile copy_substring_dropWhile)

lemma strchr_colon:
  "strchr s CHR '':'' =
     (if CHR '':'' \<in> set s then Some (dropWhile (\<lambda>c. c \<noteq> CHR '':'') s) else None)"
  by (induction s) auto

lemma uri_set_data: "data (uri_set u e d) = (data u)(e := d)"
  by (cases d) (simp_all add: uri_set_def copy_string_def)

lemma uri_parse_no_colon: "CHR '':'' \<notin> set s \<Longrightarrow> uri_parse s = Inr None"
  by (simp add: uri_parse_def Let_def strchr_colon)

lemma length_uri_elements: "length (uri_elements u) = URI_END"
  by (simp add: uri_elements_def URI_END_def)

subsection \<open>The counter of \<open>uri_build\<close>\<close>

text \<open>Below \<open>2^31\<close> the counter holds the sum; it never decreases on the way.\<close>

lemma to_int_small: "0 \<le> k \<Longrightarrow> k < 2147483648 \<Longrightarrow> to_int k = k"
  by (simp add: to_int_def)

lemma add_count_mono: "n \<le> add_count n slot k"
  by (simp add: add_count_def split: option.split)

lemma add_length_count:
  assumes "add_count n slot k < 2147483648"
  shows "add_length (int n) slot k = int (add_count n slot k)"
proof (cases slot)
  case None
  then show ?thesis by (simp add: add_length_def add_count_def)
next
  case (Some s)
  with assms have "int n + int (length s + k) < 2147483648"
    by (simp add: add_count_def)
  then have "to_int (int n + int (length s + k)) = int n + int (length s + k)"
    by (intro to_int_small) simp_all
  with Some show ?thesis by (simp add: add_length_def add_count_def)
qed

lemma build_length_counted:
  assumes "counted_length u < 2147483648"
  shows "build_length u = int (counted_length u)"
proof -
  define n1 where "n1 = add_count 0 (data u SCHEME) 1"
  define n2 where "n2 = add_count n1 (data u USERINFO) 1"
  define n3 where "n3 = add_count n2 (data u HOST) 2"
  define n4 where "n4 = add_count n3 (data u PORT) 1"
  define n5 where "n5 = add_count n4 (data u PATH) 0"
  define n6 where "n6 = add_count n5 (data u QUERY) 1"
  define n7 where "n7 = add_count n6 (data u FRAGMENT) 1"
  note defs = n1_def n2_def n3_def n4_def n5_def n6_def n7_def
  have total: "counted_length u = n7"
    by (simp add: counted_length_def defs)
  have "n1 \<le> n2" "n2 \<le> n3" "n3 \<le> n4" "n4 \<le> n5" "n5 \<le> n6" "n6 \<le> n7"
    by (simp_all add: defs add_count_mono)
  with assms total have small: "n1 < 2147483648" "n2 < 2147483648" "n3 < 2147483648"
    "n4 < 2147483648" "n5 < 2147483648" "n6 < 2147483648" "n7 < 2147483648"
    by simp_all
  have "add_length 0 (data u SCHEME) 1 = int n1"
    using add_length_count [of 0 "data u SCHEME" 1] small(1) by (simp add: n1_def)
  moreover have "add_length (int n1) (data u USERINFO) 1 = int n2"
    using add_length_count small(2) by (simp add: n2_def)
  moreover have "add_length (int n2) (data u HOST) 2 = int n3"
    using add_length_count small(3) by (simp add: n3_def)
  moreover have "add_length (int n3) (data u PORT) 1 = int n4"
    using add_length_count small(4) by (simp add: n4_def)
  moreover have "add_length (int n4) (data u PATH) 0 = int n5"
    using add_length_count small(5) by (simp add: n5_def)
  moreover have "add_length (int n5) (data u QUERY) 1 = int n6"
    using add_length_count small(6) by (simp add: n6_def)
  moreover have "add_length (int n6) (data u FRAGMENT) 1 = int n7"
    using add_length_count small(7) by (simp add: n7_def)
  ultimately show ?thesis
    by (simp add: build_length_def Let_def total)
qed

text \<open>The text that \<open>uri_build\<close> writes is never longer than the sum.\<close>

lemma build_text_fits:
  assumes "data u SCHEME = Some scheme"
  shows "length (build_text u scheme) \<le> counted_length u"
  using assms
  by (simp add: build_text_def counted_length_def add_count_def Let_def split: option.split)

lemma build_text_canonical: "build_text u scheme = canonical scheme u"
  by (simp add: build_text_def canonical_def Let_def split: option.split)

text \<open>So \<open>uri_build\<close> returns when the scheme is there and the sum is below \<open>INT_MAX\<close>.\<close>

lemma uri_build_scheme:
  assumes "data u SCHEME = Some scheme" and "int (counted_length u) < INT_MAX"
  shows "uri_build u = Inr (u\<lparr>data := (data u)(BUILD := Some (canonical scheme u))\<rparr>)"
proof -
  have "build_length u = int (counted_length u)"
    using assms(2) by (intro build_length_counted) (simp add: INT_MAX_def)
  then show ?thesis
    using assms build_text_fits [OF assms(1)]
    by (simp add: uri_build_def Let_def build_text_canonical)
qed

text \<open>Whenever \<open>uri_build\<close> returns, it has written the canonical string.\<close>

lemma uri_build_Inr:
  assumes "uri_build u = Inr u'"
  shows "\<exists>scheme. data u SCHEME = Some scheme \<and>
           u' = u\<lparr>data := (data u)(BUILD := Some (canonical scheme u))\<rparr>"
  using assms
  by (auto simp add: uri_build_def Let_def build_text_canonical
      split: if_splits option.splits)

text \<open>
  Past \<open>2^32\<close> the counter can wrap to a small value, and the text overruns the
  buffer: with a scheme of \<open>2^32\<close> characters \<open>n\<close> is 1.
\<close>

lemma uri_build_overrun:
  "build_length (uri_set calloc_uri SCHEME (Some (replicate 4294967296 CHR ''a''))) = 1
   \<and> uri_build (uri_set calloc_uri SCHEME (Some (replicate 4294967296 CHR ''a'')))
     = Inl Overrun"
  by (simp add: uri_build_def build_length_def add_length_def to_int_def Let_def
      uri_set_data calloc_uri_def INT_MAX_def build_text_canonical canonical_def)

lemma uri_build_no_scheme:
  assumes "data u SCHEME = None"
  shows "uri_build u = Inl NullRead \<or> uri_build u = Inl Overflow"
  using assms by (simp add: uri_build_def Let_def)

lemma uri_build_no_scheme_counted:
  assumes "data u SCHEME = None" and "int (counted_length u) < INT_MAX"
  shows "uri_build u = Inl NullRead"
proof -
  have "build_length u = int (counted_length u)"
    using assms(2) by (intro build_length_counted) (simp add: INT_MAX_def)
  then show ?thesis
    using assms by (simp add: uri_build_def Let_def)
qed

lemma uri_build_scheme_no_NullRead:
  assumes "data u SCHEME \<noteq> None"
  shows "uri_build u \<noteq> Inl NullRead"
  using assms by (auto simp add: uri_build_def Let_def split: option.splits)

lemma uri_get_scheme:
  assumes "data u SCHEME = Some scheme" and "int (counted_length u) < INT_MAX"
  shows "uri_get u =
    Inr (Some (canonical scheme u), u\<lparr>data := (data u)(BUILD := Some (canonical scheme u))\<rparr>)"
  using assms by (simp add: uri_get_def uri_build_scheme copy_string_def)

lemma uri_get_fault: "uri_build u = Inl f \<Longrightarrow> uri_get u = Inl f"
  by (simp add: uri_get_def)

lemma counted_length_set_BUILD [simp]:
  "counted_length (uri_set u BUILD b) = counted_length u"
  by (simp add: counted_length_def uri_set_data)

lemma uri_remove_store: "snd (uri_remove u e) = uri_set u e None"
  by (simp add: uri_remove_def Let_def)

lemma uri_remove_returns:
  "fst (uri_remove u e) = (case data u e of None \<Rightarrow> Null | Some s \<Rightarrow> Released s)"
  by (simp add: uri_remove_def Let_def)

text \<open>
  \<open>uri_print\<close> reads the \<open>BUILD\<close> slot only, so what it writes does not change when
  a component is set.
\<close>

lemma uri_print_after_set:
  "e \<noteq> BUILD \<Longrightarrow> uri_print (uri_set u e d) out = uri_print u out"
  by (simp add: uri_print_def uri_set_data)

text \<open>The equations that run the parser and the builder on a given string.\<close>

lemmas run =
  uri_parse_def uri_parse_authority_def uri_parse_port_def uri_parse_path_def Let_def
  at_char_def copy_substring_def uri_set_data uri_elements_def calloc_uri_def uri_get_def
  uri_build_scheme counted_length_def add_count_def INT_MAX_def canonical_def
  copy_string_def uri_print_def

section \<open>What the parser stores\<close>

text \<open>
  Every scanning loop splits the text under the cursor into the part it walks over and
  the rest, which is empty or starts with a character that ends the loop.
\<close>

lemma scan_stops: "scan go w = [] \<or> (\<exists>c w'. scan go w = c # w' \<and> \<not> go c)"
  by (induction w) simp_all

lemma scan_True: "scan (\<lambda>c. True) w = []"
  by (induction w) simp_all

lemma scan_split:
  "\<exists>pre r. w = pre @ r \<and> scan go (pre @ r) = r \<and> (\<forall>c\<in>set pre. go c) \<and>
     (r = [] \<or> (\<exists>c r'. r = c # r' \<and> \<not> go c))"
proof (intro exI conjI)
  show "w = takeWhile go w @ dropWhile go w" by simp
  show "scan go (takeWhile go w @ dropWhile go w) = dropWhile go w"
    by (simp add: scan_dropWhile)
  show "\<forall>c\<in>set (takeWhile go w). go c"
    by (auto dest: set_takeWhileD)
  show "dropWhile go w = [] \<or> (\<exists>c r'. dropWhile go w = c # r' \<and> \<not> go c)"
    using scan_stops [of go w] by (simp add: scan_dropWhile)
qed

lemma at_char_Cons: "at_char w c \<longleftrightarrow> (\<exists>w'. w = c # w')"
  by (cases w) (auto simp add: at_char_def)

lemma copy_substring_append: "copy_substring (pre @ w) w = pre"
  by (simp add: copy_substring_def)

lemma copy_substring_Nil: "copy_substring w [] = w"
  by (simp add: copy_substring_def)

text \<open>The canonical string reads the six slots after the scheme and nothing else.\<close>

lemma canonical_eqI:
  assumes "data u' USERINFO = data u USERINFO" "data u' HOST = data u HOST"
    "data u' PORT = data u PORT" "data u' PATH = data u PATH"
    "data u' QUERY = data u QUERY" "data u' FRAGMENT = data u FRAGMENT"
  shows "canonical scheme u' = canonical scheme u"
  by (simp add: canonical_def assms cong: option.case_cong)

text \<open>
  Lines 265-298, entered at the end of the input, at a \<open>?\<close> or at a \<open>#\<close>: path,
  query and fragment, put one after the other, are the text from \<open>current\<close> on. The
  query keeps its \<open>?\<close> and the fragment its \<open>#\<close>. The store goes through
  \<open>uri_build\<close> exactly when a query or a fragment was stored.
\<close>

lemma uri_parse_path_text:
  assumes "data uri QUERY = None" "data uri FRAGMENT = None"
    and "working = [] \<or> at_char working CHR ''?'' \<or> at_char working CHR ''#''"
  shows "\<exists>uri'. uri_parse_path uri (pre @ working) working =
       parse_return (data uri' QUERY = None \<and> data uri' FRAGMENT = None) uri' \<and>
     slot_text uri' PATH @ slot_text uri' QUERY @ slot_text uri' FRAGMENT = pre @ working \<and>
     (\<forall>e. e \<in> {BUILD, SCHEME, USERINFO, HOST, PORT} \<longrightarrow> data uri' e = data uri e)"
proof -
  consider "working = []" | w where "working = CHR ''?'' # w" | w where "working = CHR ''#'' # w"
    using assms(3) by (auto simp add: at_char_Cons)
  then show ?thesis
  proof cases
    case 1
    show ?thesis
      apply (rule exI [of _ "uri_set uri PATH (Some pre)"])
      using assms(1,2)
      by (simp add: 1 uri_parse_path_def Let_def uri_set_data slot_text_def copy_substring_Nil
          parse_return_def)
  next
    case 2
    obtain q r where w: "w = q @ r" and sc: "scan (\<lambda>c. c \<noteq> CHR ''#'') (q @ r) = r"
      and r: "r = [] \<or> (\<exists>c r'. r = c # r' \<and> \<not> c \<noteq> CHR ''#'')"
      using scan_split [of w "\<lambda>c. c \<noteq> CHR ''#''"] by blast
    have cs: "copy_substring (CHR ''?'' # q @ r) r = CHR ''?'' # q"
      using copy_substring_append [of "CHR ''?'' # q" r] by simp
    have pre: "copy_substring (pre @ CHR ''?'' # q @ r) (CHR ''?'' # q @ r) = pre"
      by (rule copy_substring_append)
    from r show ?thesis
    proof
      assume "r = []"
      with sc cs pre show ?thesis
        apply (intro exI [of _ "uri_set (uri_set uri PATH (Some pre)) QUERY (Some (CHR ''?'' # q))"])
        using assms(1,2)
        by (simp add: 2 w uri_parse_path_def Let_def uri_set_data slot_text_def
            at_char_def parse_return_def)
    next
      assume "\<exists>c r'. r = c # r' \<and> \<not> c \<noteq> CHR ''#''"
      then obtain r' where "r = CHR ''#'' # r'" by auto
      with sc cs pre show ?thesis
        apply (intro exI [of _ "uri_set (uri_set (uri_set uri PATH (Some pre))
            QUERY (Some (CHR ''?'' # q))) FRAGMENT (Some (CHR ''#'' # r'))"])
        using assms(1,2)
        by (simp add: 2 w uri_parse_path_def Let_def uri_set_data slot_text_def
            at_char_def scan_True copy_substring_Nil parse_return_def)
    qed
  next
    case 3
    show ?thesis
      apply (rule exI [of _ "uri_set (uri_set uri PATH (Some pre)) FRAGMENT (Some working)"])
      using assms(1,2)
      by (simp add: 3 uri_parse_path_def Let_def uri_set_data slot_text_def scan_True
          copy_substring_append at_char_def copy_substring_Nil parse_return_def)
  qed
qed

lemma uri_parse_path_entry:
  assumes "data uri QUERY = None" "data uri FRAGMENT = None"
  shows "\<exists>uri'.
     uri_parse_path uri current (scan (\<lambda>c. c \<noteq> CHR ''?'' \<and> c \<noteq> CHR ''#'') current)
       = parse_return (data uri' QUERY = None \<and> data uri' FRAGMENT = None) uri' \<and>
     slot_text uri' PATH @ slot_text uri' QUERY @ slot_text uri' FRAGMENT = current \<and>
     (\<forall>e. e \<in> {BUILD, SCHEME, USERINFO, HOST, PORT} \<longrightarrow> data uri' e = data uri e)"
proof -
  obtain pre r where c: "current = pre @ r"
    and sc: "scan (\<lambda>c. c \<noteq> CHR ''?'' \<and> c \<noteq> CHR ''#'') (pre @ r) = r"
    and r: "r = [] \<or> (\<exists>c r'. r = c # r' \<and> \<not> (c \<noteq> CHR ''?'' \<and> c \<noteq> CHR ''#''))"
    using scan_split [of current "\<lambda>c. c \<noteq> CHR ''?'' \<and> c \<noteq> CHR ''#''"] by blast
  from r have "r = [] \<or> at_char r CHR ''?'' \<or> at_char r CHR ''#''"
    by (auto simp add: at_char_def)
  from uri_parse_path_text [OF assms this, of pre] show ?thesis
    by (simp add: c sc)
qed

text \<open>Lines 238-257, entered at a \<open>:\<close> or a \<open>/\<close>.\<close>

lemma uri_parse_port_text:
  assumes "data uri PORT = None" "data uri PATH = None" "data uri QUERY = None"
      "data uri FRAGMENT = None"
    and "at_char working CHR '':'' \<or> at_char working CHR ''/''"
  shows "\<exists>uri'. uri_parse_port uri working =
       parse_return (data uri' QUERY = None \<and> data uri' FRAGMENT = None) uri' \<and>
     port_text uri' @ slot_text uri' PATH @ slot_text uri' QUERY @ slot_text uri' FRAGMENT
       = working \<and>
     (\<forall>e. e \<in> {BUILD, SCHEME, USERINFO, HOST} \<longrightarrow> data uri' e = data uri e)"
proof -
  consider w where "working = CHR '':'' # w" | w where "working = CHR ''/'' # w"
    using assms(5) by (auto simp add: at_char_Cons)
  then show ?thesis
  proof cases
    case 1
    obtain p r where w: "w = p @ r" and sc: "scan (\<lambda>c. c \<noteq> CHR ''/'') (p @ r) = r"
      using scan_split [of w "\<lambda>c. c \<noteq> CHR ''/''"] by blast
    define uri1 where "uri1 = uri_set uri PORT (Some p)"
    have step: "uri_parse_port uri working =
        (if r = [] then Inr (Some uri1)
         else uri_parse_path uri1 r (scan (\<lambda>c. c \<noteq> CHR ''?'' \<and> c \<noteq> CHR ''#'') r))"
      by (simp add: uri_parse_port_def 1 w sc at_char_def Let_def copy_substring_append uri1_def)
    show ?thesis
    proof (cases "r = []")
      case True
      show ?thesis
        unfolding step
        apply (rule exI [of _ uri1])
        using assms(1-4) True
        by (simp add: uri1_def uri_set_data port_text_def slot_text_def 1 w parse_return_def)
    next
      case False
      have "data uri1 QUERY = None" "data uri1 FRAGMENT = None"
        using assms(1-4) by (simp_all add: uri1_def uri_set_data)
      from uri_parse_path_entry [OF this, of r]
      obtain uri' where
        "uri_parse_path uri1 r (scan (\<lambda>c. c \<noteq> CHR ''?'' \<and> c \<noteq> CHR ''#'') r)
           = parse_return (data uri' QUERY = None \<and> data uri' FRAGMENT = None) uri'"
        "slot_text uri' PATH @ slot_text uri' QUERY @ slot_text uri' FRAGMENT = r"
        "\<forall>e. e \<in> {BUILD, SCHEME, USERINFO, HOST, PORT} \<longrightarrow> data uri' e = data uri1 e"
        by blast
      then show ?thesis
        unfolding step using False
        by (intro exI [of _ uri']) (simp add: port_text_def uri1_def uri_set_data 1 w)
    qed
  next
    case 2
    have step: "uri_parse_port uri working =
        uri_parse_path uri working (scan (\<lambda>c. c \<noteq> CHR ''?'' \<and> c \<noteq> CHR ''#'') working)"
      by (simp add: uri_parse_port_def 2 at_char_def Let_def)
    from uri_parse_path_entry [OF assms(3,4), of working]
    obtain uri' where
      "uri_parse_path uri working (scan (\<lambda>c. c \<noteq> CHR ''?'' \<and> c \<noteq> CHR ''#'') working)
         = parse_return (data uri' QUERY = None \<and> data uri' FRAGMENT = None) uri'"
      "slot_text uri' PATH @ slot_text uri' QUERY @ slot_text uri' FRAGMENT = working"
      "\<forall>e. e \<in> {BUILD, SCHEME, USERINFO, HOST, PORT} \<longrightarrow> data uri' e = data uri e"
      by blast
    then show ?thesis
      unfolding step using assms(1)
      by (intro exI [of _ uri']) (simp add: port_text_def)
  qed
qed

text \<open>
  Lines 213-258: whatever follows \<open>//\<close>, the stored userinfo, host, port, path,
  query and fragment, with \<open>@\<close> and \<open>:\<close> put back, are that text.
\<close>

lemma uri_parse_authority_text:
  assumes "data uri SCHEME = Some scheme"
    and "\<forall>e. e \<noteq> SCHEME \<longrightarrow> data uri e = None"
  shows "\<exists>uri'. uri_parse_authority uri working =
       parse_return (data uri' QUERY = None \<and> data uri' FRAGMENT = None) uri' \<and>
     data uri' SCHEME = Some scheme \<and> data uri' HOST \<noteq> None \<and> data uri' BUILD = None \<and>
     userinfo_text uri' @ slot_text uri' HOST @ port_text uri' @
       slot_text uri' PATH @ slot_text uri' QUERY @ slot_text uri' FRAGMENT = working"
proof -
  let ?go1 = "\<lambda>c. c \<noteq> CHR ''@'' \<and> c \<noteq> CHR '':'' \<and> c \<noteq> CHR ''/''"
  let ?go2 = "\<lambda>c. c \<noteq> CHR '':'' \<and> c \<noteq> CHR ''/''"
  obtain h1 r1 where w: "working = h1 @ r1" and sc1: "scan ?go1 (h1 @ r1) = r1"
    and r1: "r1 = [] \<or> (\<exists>c r'. r1 = c # r' \<and> \<not> ?go1 c)"
    using scan_split [of working ?go1] by blast
  have "\<exists>uri1 host r2.
      uri_parse_authority uri working =
        (let uri2 = uri_set uri1 HOST (Some host)
         in if r2 = [] then Inr (Some uri2) else uri_parse_port uri2 r2) \<and>
      userinfo_text uri1 @ host @ r2 = working \<and>
      (r2 = [] \<or> at_char r2 CHR '':'' \<or> at_char r2 CHR ''/'') \<and>
      (\<forall>e. e \<noteq> USERINFO \<longrightarrow> data uri1 e = data uri e)"
  proof (cases "at_char r1 CHR ''@''")
    case True
    then obtain w2 where r1': "r1 = CHR ''@'' # w2"
      by (auto simp add: at_char_Cons)
    obtain h2 r2 where w2: "w2 = h2 @ r2" and sc2: "scan ?go2 (h2 @ r2) = r2"
      and r2: "r2 = [] \<or> (\<exists>c r'. r2 = c # r' \<and> \<not> ?go2 c)"
      using scan_split [of w2 ?go2] by blast
    show ?thesis
      apply (rule exI [of _ "uri_set uri USERINFO (Some h1)"])
      apply (rule exI [of _ h2])
      apply (rule exI [of _ r2])
      using sc1 sc2 r2
      by (auto simp add: uri_parse_authority_def Let_def w r1' w2 at_char_def
          copy_substring_append copy_substring_Nil userinfo_text_def uri_set_data)
  next
    case False
    show ?thesis
      apply (rule exI [of _ uri])
      apply (rule exI [of _ h1])
      apply (rule exI [of _ r1])
      using sc1 r1 False assms(2)
      by (auto simp add: uri_parse_authority_def Let_def w at_char_def copy_substring_append
          copy_substring_Nil userinfo_text_def)
  qed
  then obtain uri1 host r2 where
    step: "uri_parse_authority uri working =
        (let uri2 = uri_set uri1 HOST (Some host)
         in if r2 = [] then Inr (Some uri2) else uri_parse_port uri2 r2)"
    and whole: "userinfo_text uri1 @ host @ r2 = working"
    and r2: "r2 = [] \<or> at_char r2 CHR '':'' \<or> at_char r2 CHR ''/''"
    and frame: "\<forall>e. e \<noteq> USERINFO \<longrightarrow> data uri1 e = data uri e"
    by blast
  define uri2 where "uri2 = uri_set uri1 HOST (Some host)"
  show ?thesis
  proof (cases "r2 = []")
    case True
    show ?thesis
      unfolding step
      apply (rule exI [of _ uri2])
      using True whole frame assms
      by (simp add: uri2_def uri_set_data userinfo_text_def port_text_def slot_text_def
          parse_return_def)
  next
    case False
    have "data uri2 PORT = None" "data uri2 PATH = None"
      "data uri2 QUERY = None" "data uri2 FRAGMENT = None"
      using frame assms by (simp_all add: uri2_def uri_set_data)
    from uri_parse_port_text [OF this, of r2] r2 False
    obtain uri' where
      "uri_parse_port uri2 r2
         = parse_return (data uri' QUERY = None \<and> data uri' FRAGMENT = None) uri'"
      "port_text uri' @ slot_text uri' PATH @ slot_text uri' QUERY @ slot_text uri' FRAGMENT = r2"
      "\<forall>e. e \<in> {BUILD, SCHEME, USERINFO, HOST} \<longrightarrow> data uri' e = data uri2 e"
      by blast
    then show ?thesis
      unfolding step using False whole frame assms
      by (intro exI [of _ uri'])
        (simp add: uri2_def uri_set_data userinfo_text_def slot_text_def)
  qed
qed

text \<open>
  A returned store is the populated one, or the populated one with its \<open>BUILD\<close> slot
  filled by \<open>uri_build\<close>; \<open>NULL\<close> is never returned at this point.
\<close>

lemma parse_return_Some:
  assumes "parse_return early uri = Inr (Some store)"
  shows "(early \<and> store = uri) \<or>
         (\<not> early \<and> (\<exists>scheme. data uri SCHEME = Some scheme \<and>
            store = uri\<lparr>data := (data uri)(BUILD := Some (canonical scheme uri))\<rparr>))"
  using assms uri_build_Inr [of uri]
  by (auto simp add: parse_return_def split: if_splits sum.splits)

lemma parse_return_not_None: "parse_return early uri \<noteq> Inr None"
  by (simp add: parse_return_def split: sum.split)

lemma parse_return_counted:
  assumes "data uri SCHEME = Some scheme" and "int (counted_length uri) < INT_MAX"
  shows "parse_return early uri =
     Inr (Some (if early then uri
                else uri\<lparr>data := (data uri)(BUILD := Some (canonical scheme uri))\<rparr>))"
  using assms by (simp add: parse_return_def uri_build_scheme)

lemma strchr_scheme:
  "CHR '':'' \<notin> set scheme \<Longrightarrow>
   strchr (scheme @ CHR '':'' # rest) CHR '':'' = Some (CHR '':'' # rest)"
  by (induction scheme) auto

text \<open>
  The parser on \<open>scheme://rest\<close>. The store it populates always has a host, and its
  pieces make up \<open>rest\<close>; it goes through \<open>uri_build\<close> exactly when a query or a
  fragment was stored.
\<close>

lemma uri_parse_authority_mode:
  assumes "CHR '':'' \<notin> set scheme"
  shows "\<exists>uri. uri_parse (scheme @ ''://'' @ rest) =
       parse_return (data uri QUERY = None \<and> data uri FRAGMENT = None) uri \<and>
     data uri SCHEME = Some scheme \<and> data uri HOST \<noteq> None \<and> data uri BUILD = None \<and>
     userinfo_text uri @ slot_text uri HOST @ port_text uri @
       slot_text uri PATH @ slot_text uri QUERY @ slot_text uri FRAGMENT = rest"
proof -
  define uri0 where "uri0 = uri_set calloc_uri SCHEME (Some scheme)"
  have step: "uri_parse (scheme @ ''://'' @ rest) = uri_parse_authority uri0 rest"
    using assms
    by (simp add: uri_parse_def strchr_scheme Let_def at_char_def uri0_def
        copy_substring_append)
  have "data uri0 SCHEME = Some scheme" "\<forall>e. e \<noteq> SCHEME \<longrightarrow> data uri0 e = None"
    by (simp_all add: uri0_def uri_set_data calloc_uri_def)
  from uri_parse_authority_text [OF this, of rest] show ?thesis
    unfolding step by blast
qed

text \<open>
  The parser on \<open>scheme:rest\<close> where \<open>rest\<close> does not start with \<open>//\<close>. The path
  is \<open>rest\<close> up to its first \<open>/\<close>; no other component is stored, whatever follows.
  The store goes through \<open>uri_build\<close> exactly when \<open>rest\<close> has a \<open>/\<close>.
\<close>

lemma uri_parse_no_authority:
  assumes "CHR '':'' \<notin> set scheme" and "take 2 rest \<noteq> ''//''"
  shows "uri_parse (scheme @ '':'' @ rest) =
     parse_return (CHR ''/'' \<notin> set rest)
       (uri_set (uri_set calloc_uri SCHEME (Some scheme))
          PATH (Some (takeWhile (\<lambda>c. c \<noteq> CHR ''/'') rest)))"
proof -
  define uri0 where "uri0 = uri_set calloc_uri SCHEME (Some scheme)"
  have no: "\<not> (at_char rest CHR ''/'' \<and> at_char (tl rest) CHR ''/'')"
    using assms(2) by (auto simp add: at_char_Cons)
  have step: "uri_parse (scheme @ '':'' @ rest) =
      uri_parse_path uri0 rest (scan (\<lambda>c. c \<noteq> CHR ''/'') rest)"
    using assms(1) no
    by (auto simp add: uri_parse_def strchr_scheme Let_def uri0_def copy_substring_append)
  obtain r where r: "scan (\<lambda>c. c \<noteq> CHR ''/'') rest = r" by simp
  have r': "r = [] \<or> (\<exists>r'. r = CHR ''/'' # r')"
    using scan_stops [of "\<lambda>c. c \<noteq> CHR ''/''" rest] r by auto
  have nil: "r = [] \<longleftrightarrow> CHR ''/'' \<notin> set rest"
    using r by (auto simp add: scan_dropWhile dropWhile_eq_Nil_conv)
  show ?thesis
    unfolding step
    using r' nil copy_substring_scan [of rest "\<lambda>c. c \<noteq> CHR ''/''"]
    by (auto simp add: r uri_parse_path_def Let_def uri0_def at_char_def parse_return_def)
qed

text \<open>The canonical string and the sum of \<open>uri_build\<close> in terms of the stored text.\<close>

lemma canonical_text:
  assumes "data u HOST \<noteq> None"
  shows "canonical scheme u =
     scheme @ ''://'' @ userinfo_text u @ slot_text u HOST @ port_text u @ slot_text u PATH @
     (case data u QUERY of None \<Rightarrow> [] | Some query \<Rightarrow> ''?'' @ query) @
     (case data u FRAGMENT of None \<Rightarrow> [] | Some fragment \<Rightarrow> ''#'' @ fragment)"
  using assms
  by (auto simp add: canonical_def userinfo_text_def slot_text_def port_text_def
      split: option.split)

lemma counted_text:
  assumes "data u SCHEME = Some scheme" and "data u HOST \<noteq> None"
  shows "counted_length u =
     length (scheme @ ''://'' @ userinfo_text u @ slot_text u HOST @ port_text u @
       slot_text u PATH @ slot_text u QUERY @ slot_text u FRAGMENT) +
     (if data u QUERY = None then 0 else 1) + (if data u FRAGMENT = None then 0 else 1)"
  using assms
  by (auto simp add: counted_length_def add_count_def userinfo_text_def slot_text_def
      port_text_def split: option.split)

lemma delimiters_added:
  "(case q of None \<Rightarrow> [] | Some query \<Rightarrow> ''?'' @ query) @
   (case f of None \<Rightarrow> [] | Some fragment \<Rightarrow> ''#'' @ fragment)
   = (case q of None \<Rightarrow> [] | Some t \<Rightarrow> t) @ (case f of None \<Rightarrow> [] | Some t \<Rightarrow> t)
   \<longleftrightarrow> q = None \<and> f = None"
  by (auto split: option.splits dest: arg_cong [where f = length])

lemma split_at_colon:
  assumes "CHR '':'' \<in> set s"
  shows "\<exists>scheme rest. s = scheme @ '':'' @ rest \<and> CHR '':'' \<notin> set scheme \<and>
           takeWhile (\<lambda>c. c \<noteq> CHR '':'') s = scheme"
proof -
  obtain scheme r where s: "s = scheme @ r" and sch: "\<forall>c\<in>set scheme. c \<noteq> CHR '':''"
    and r: "r = [] \<or> (\<exists>c r'. r = c # r' \<and> \<not> c \<noteq> CHR '':'')"
    using scan_split [of s "\<lambda>c. c \<noteq> CHR '':''"] by blast
  have "r \<noteq> []"
    using assms s sch by fastforce
  with r obtain rest where rest: "r = CHR '':'' # rest"
    by auto
  have "takeWhile (\<lambda>c. c \<noteq> CHR '':'') (scheme @ CHR '':'' # rest) =
      scheme @ takeWhile (\<lambda>c. c \<noteq> CHR '':'') (CHR '':'' # rest)"
    using sch by (intro takeWhile_append2) blast
  then have tw: "takeWhile (\<lambda>c. c \<noteq> CHR '':'') s = scheme"
    by (simp add: s rest)
  have "CHR '':'' \<notin> set scheme"
    using sch by blast
  with s rest tw show ?thesis
    by (intro exI [of _ scheme] exI [of _ rest]) simp
qed

text \<open>
  On every input with a \<open>:\<close> the parser populates a store whose scheme is the text
  before the first \<open>:\<close>, and whose sum in \<open>uri_build\<close> is at most two more than the
  length of the input.
\<close>

lemma uri_parse_populates:
  assumes "CHR '':'' \<in> set s"
  shows "\<exists>early uri. uri_parse s = parse_return early uri \<and>
     data uri SCHEME = Some (takeWhile (\<lambda>c. c \<noteq> CHR '':'') s) \<and> data uri BUILD = None \<and>
     counted_length uri \<le> length s + 2"
proof -
  obtain scheme rest where s: "s = scheme @ '':'' @ rest" and sch: "CHR '':'' \<notin> set scheme"
    and tw: "takeWhile (\<lambda>c. c \<noteq> CHR '':'') s = scheme"
    using split_at_colon [OF assms] by blast
  show ?thesis
  proof (cases "take 2 rest = ''//''")
    case True
    then have "rest = ''//'' @ drop 2 rest"
      by (metis append_take_drop_id)
    then have s': "s = scheme @ ''://'' @ drop 2 rest"
      by (simp add: s)
    from uri_parse_authority_mode [OF sch, of "drop 2 rest"]
    obtain uri where p: "uri_parse s =
        parse_return (data uri QUERY = None \<and> data uri FRAGMENT = None) uri"
      and u: "data uri SCHEME = Some scheme" "data uri HOST \<noteq> None" "data uri BUILD = None"
      and t: "userinfo_text uri @ slot_text uri HOST @ port_text uri @
         slot_text uri PATH @ slot_text uri QUERY @ slot_text uri FRAGMENT = drop 2 rest"
      unfolding s' [symmetric] by blast
    have "length s = length (scheme @ ''://'' @ drop 2 rest)"
      using s' by simp
    then have "counted_length uri \<le> length s + 2"
      unfolding counted_text [OF u(1,2)] t by simp
    with p u tw show ?thesis by blast
  next
    case False
    let ?uri = "uri_set (uri_set calloc_uri SCHEME (Some scheme))
          PATH (Some (takeWhile (\<lambda>c. c \<noteq> CHR ''/'') rest))"
    have "length (takeWhile (\<lambda>c. c \<noteq> CHR ''/'') rest) \<le> length rest"
      by (rule length_takeWhile_le)
    then have "counted_length ?uri \<le> length s + 2"
      by (simp add: counted_length_def add_count_def uri_set_data calloc_uri_def s)
    moreover have "data ?uri SCHEME = Some scheme" "data ?uri BUILD = None"
      by (simp_all add: uri_set_data calloc_uri_def)
    ultimately show ?thesis
      using uri_parse_no_authority [OF sch False] tw unfolding s [symmetric] by blast
  qed
qed

text \<open>
  On every input, a store that \<open>uri_parse\<close> returns has the text before the first
  \<open>:\<close> as its scheme, and its \<open>BUILD\<close> slot is empty or holds the canonical string of
  its components.
\<close>

lemma uri_parse_build_slot:
  assumes "uri_parse s = Inr (Some store)"
  shows "data store SCHEME = Some (takeWhile (\<lambda>c. c \<noteq> CHR '':'') s) \<and>
     (data store BUILD = None \<or>
      data store BUILD = Some (canonical (takeWhile (\<lambda>c. c \<noteq> CHR '':'') s) store))"
proof -
  let ?scheme = "takeWhile (\<lambda>c. c \<noteq> CHR '':'') s"
  have "CHR '':'' \<in> set s"
    using assms uri_parse_no_colon [of s] by auto
  from uri_parse_populates [OF this]
  obtain early uri where p: "uri_parse s = parse_return early uri"
    and u: "data uri SCHEME = Some ?scheme" "data uri BUILD = None"
    by blast
  from parse_return_Some [of early uri store] assms p
  consider "store = uri"
    | "store = uri\<lparr>data := (data uri)(BUILD := Some (canonical ?scheme uri))\<rparr>"
    using u(1) by auto
  then show ?thesis
  proof cases
    case 1
    with u show ?thesis by simp
  next
    case 2
    have "canonical ?scheme store = canonical ?scheme uri"
      unfolding 2 by (rule canonical_eqI) simp_all
    with 2 u show ?thesis by simp
  qed
qed

text \<open>
  Parsing \<open>scheme://rest\<close> and asking for the string with \<open>uri_get\<close> gives the
  input back exactly when the parser stored neither a query nor a fragment: a stored
  query or fragment starts with its delimiter, and \<open>uri_build\<close> adds the delimiter
  once more. The \<open>BUILD\<close> slot that \<open>uri_parse\<close> itself leaves is never the input.
  (The input is short enough for the \<open>int\<close> of \<open>uri_build\<close>.)
\<close>

lemma uri_parse_get_authority:
  assumes "CHR '':'' \<notin> set scheme"
    and "int (length (scheme @ ''://'' @ rest)) + 2 < INT_MAX"
  shows "\<exists>store text.
     uri_parse (scheme @ ''://'' @ rest) = Inr (Some store) \<and>
     map_sum id fst (uri_get store) = Inr (Some text) \<and>
     (text = scheme @ ''://'' @ rest \<longleftrightarrow> data store QUERY = None \<and> data store FRAGMENT = None) \<and>
     data store BUILD \<noteq> Some (scheme @ ''://'' @ rest)"
proof -
  let ?s = "scheme @ ''://'' @ rest"
  from uri_parse_authority_mode [OF assms(1), of rest]
  obtain uri where p: "uri_parse ?s =
      parse_return (data uri QUERY = None \<and> data uri FRAGMENT = None) uri"
    and u: "data uri SCHEME = Some scheme" "data uri HOST \<noteq> None" "data uri BUILD = None"
    and t: "userinfo_text uri @ slot_text uri HOST @ port_text uri @
       slot_text uri PATH @ slot_text uri QUERY @ slot_text uri FRAGMENT = rest"
    by blast
  have "counted_length uri \<le> length ?s + 2"
    unfolding counted_text [OF u(1,2)] t by simp
  with assms(2) have small: "int (counted_length uri) < INT_MAX"
    by simp
  define store where "store =
    (if data uri QUERY = None \<and> data uri FRAGMENT = None then uri
     else uri\<lparr>data := (data uri)(BUILD := Some (canonical scheme uri))\<rparr>)"
  have ret: "uri_parse ?s = Inr (Some store)"
    unfolding p store_def by (rule parse_return_counted [OF u(1) small])
  have same: "\<forall>e. e \<noteq> BUILD \<longrightarrow> data store e = data uri e"
    by (simp add: store_def)
  have can: "canonical scheme store = canonical scheme uri"
    by (rule canonical_eqI) (simp_all add: same)
  have "counted_length store = counted_length uri"
    by (simp add: counted_length_def same)
  with small same u(1) have get: "map_sum id fst (uri_get store) = Inr (Some (canonical scheme uri))"
    by (simp add: uri_get_scheme [of store scheme] can)
  have eq: "canonical scheme uri = ?s \<longleftrightarrow>
      data uri QUERY = None \<and> data uri FRAGMENT = None"
    using delimiters_added [of "data uri QUERY" "data uri FRAGMENT"]
    unfolding canonical_text [OF u(2)] t [symmetric]
    by (simp add: slot_text_def)
  have "data store BUILD \<noteq> Some ?s"
    using eq u(3) by (auto simp add: store_def)
  with ret get eq same show ?thesis
    by auto
qed

section \<open>The builder's output\<close>

text \<open>
  Claim C3, as amended. For every store whose scheme slot is present and whose
  lengths, summed as \<open>uri_build\<close> sums them (each present slot with its separators),
  stay below \<open>INT_MAX\<close>, \<open>uri_build\<close> returns and writes into the \<open>BUILD\<close> slot
  exactly the canonical string of section 4.3: the scheme, \<open>:\<close>, then only if the host
  is present \<open>//\<close>, the userinfo with \<open>@\<close> if present, the host, \<open>:\<close> with the port
  if present; then the path verbatim if present, \<open>?\<close> with the query if present, \<open>#\<close>
  with the fragment if present, in this order. No other slot changes. Whatever the
  lengths, a store that \<open>uri_build\<close> returns is this one.
\<close>

theorem uri_build_canonical:
  "(data u SCHEME = Some scheme \<and> int (counted_length u) < INT_MAX \<longrightarrow>
      uri_build u = Inr (u\<lparr>data := (data u)(BUILD := Some (canonical scheme u))\<rparr>))
   \<and> (\<forall>u'. data u SCHEME = Some scheme \<and> uri_build u = Inr u' \<longrightarrow>
      u' = u\<lparr>data := (data u)(BUILD := Some (canonical scheme u))\<rparr>)"
  using uri_build_scheme [of u scheme] uri_build_Inr [of u] by auto

theorem uri_build_canonical_witness:
  "let u = uri_set (uri_set (uri_set (uri_set (uri_set (uri_set (uri_set calloc_uri
         SCHEME (Some ''http'')) USERINFO (Some ''user'')) HOST (Some ''host''))
         PORT (Some ''80'')) PATH (Some ''/path'')) QUERY (Some ''q'')) FRAGMENT (Some ''f'')
   in data u SCHEME = Some ''http'' \<and> int (counted_length u) < INT_MAX \<and>
      counted_length u = 28 \<and>
      map_sum id uri_elements (uri_build u)
        = Inr [Some ''http://user@host:80/path?q#f'', Some ''http'', Some ''user'',
               Some ''host'', Some ''80'', Some ''/path'', Some ''q'', Some ''f'']"
  using uri_build_canonical [of "uri_set (uri_set (uri_set (uri_set (uri_set (uri_set (uri_set
      calloc_uri SCHEME (Some ''http'')) USERINFO (Some ''user'')) HOST (Some ''host''))
      PORT (Some ''80'')) PATH (Some ''/path'')) QUERY (Some ''q'')) FRAGMENT (Some ''f'')"
      "''http''", THEN conjunct1]
  by (simp add: Let_def canonical_def uri_set_data calloc_uri_def uri_elements_def
      counted_length_def add_count_def INT_MAX_def)

text \<open>
  The claim as stated is for every store with a scheme. With a scheme of
  \<open>INT_MAX\<close> characters the counter of line 118 wraps to the least \<open>int\<close>, and lines
  138-139 ask for and write into storage that is not there.
\<close>

theorem uri_build_overflow_counterexample:
  "data (uri_set calloc_uri SCHEME (Some (replicate 2147483647 CHR ''a''))) SCHEME
     = Some (replicate 2147483647 CHR ''a'')
   \<and> build_length (uri_set calloc_uri SCHEME (Some (replicate 2147483647 CHR ''a'')))
     = - 2147483648
   \<and> uri_build (uri_set calloc_uri SCHEME (Some (replicate 2147483647 CHR ''a'')))
     = Inl Overflow"
  by (simp add: uri_build_def build_length_def add_length_def to_int_def Let_def
      uri_set_data calloc_uri_def INT_MAX_def)

text \<open>
  Claim C10, as amended. \<open>uri_build\<close> reads the scheme slot without a test. When the
  scheme is present, that read is never through \<open>NULL\<close>, in \<open>uri_build\<close> or in
  \<open>uri_get\<close>; when moreover the lengths, summed as \<open>uri_build\<close> sums them, stay below
  \<open>INT_MAX\<close>, both return. When the scheme is absent, neither returns: the read at
  line 142 goes through \<open>NULL\<close>, unless the counter has overflowed before.
\<close>

theorem uri_build_total_with_scheme:
  "(data u SCHEME \<noteq> None \<and> int (counted_length u) < INT_MAX \<longrightarrow>
      (\<exists>u'. uri_build u = Inr u') \<and> (\<exists>c u'. uri_get u = Inr (Some c, u')))
   \<and> (data u SCHEME \<noteq> None \<longrightarrow> uri_build u \<noteq> Inl NullRead \<and> uri_get u \<noteq> Inl NullRead)
   \<and> (data u SCHEME = None \<longrightarrow> (\<exists>f. uri_build u = Inl f \<and> uri_get u = Inl f))
   \<and> (data u SCHEME = None \<and> int (counted_length u) < INT_MAX \<longrightarrow>
        uri_build u = Inl NullRead \<and> uri_get u = Inl NullRead)"
proof (intro conjI impI)
  assume "data u SCHEME \<noteq> None \<and> int (counted_length u) < INT_MAX"
  then obtain scheme where "data u SCHEME = Some scheme" "int (counted_length u) < INT_MAX"
    by auto
  then show "\<exists>u'. uri_build u = Inr u'" "\<exists>c u'. uri_get u = Inr (Some c, u')"
    by (simp_all add: uri_build_scheme uri_get_scheme)
next
  assume "data u SCHEME \<noteq> None"
  then show "uri_build u \<noteq> Inl NullRead"
    by (rule uri_build_scheme_no_NullRead)
  then show "uri_get u \<noteq> Inl NullRead"
    by (auto simp add: uri_get_def split: sum.splits)
next
  assume "data u SCHEME = None"
  then show "\<exists>f. uri_build u = Inl f \<and> uri_get u = Inl f"
    using uri_build_no_scheme [of u] by (auto simp add: uri_get_def)
next
  assume "data u SCHEME = None \<and> int (counted_length u) < INT_MAX"
  then show "uri_build u = Inl NullRead" "uri_get u = Inl NullRead"
    by (simp_all add: uri_build_no_scheme_counted uri_get_def)
qed

theorem uri_build_total_with_scheme_witness:
  "data (uri_set calloc_uri SCHEME (Some ''a'')) SCHEME \<noteq> None
   \<and> int (counted_length (uri_set calloc_uri SCHEME (Some ''a''))) < INT_MAX
   \<and> (\<exists>u'. uri_build (uri_set calloc_uri SCHEME (Some ''a'')) = Inr u')
   \<and> (\<exists>c u'. uri_get (uri_set calloc_uri SCHEME (Some ''a'')) = Inr (Some c, u'))
   \<and> data calloc_uri SCHEME = None
   \<and> int (counted_length calloc_uri) < INT_MAX
   \<and> uri_build calloc_uri = Inl NullRead \<and> uri_get calloc_uri = Inl NullRead"
  using uri_build_total_with_scheme [of "uri_set calloc_uri SCHEME (Some ''a'')"]
    uri_build_total_with_scheme [of calloc_uri]
  by (simp add: uri_set_data calloc_uri_def counted_length_def add_count_def INT_MAX_def)

text \<open>
  The claim as stated has both operations total on every store with a scheme. With a
  scheme of one character and a path of \<open>INT_MAX - 2\<close> characters the counter reaches
  \<open>INT_MAX\<close>, and \<open>n + 1\<close> at line 138 overflows.
\<close>

theorem uri_build_not_total_counterexample:
  "data (uri_set (uri_set calloc_uri SCHEME (Some ''a''))
          PATH (Some (replicate 2147483645 CHR ''p''))) SCHEME \<noteq> None
   \<and> build_length (uri_set (uri_set calloc_uri SCHEME (Some ''a''))
          PATH (Some (replicate 2147483645 CHR ''p''))) = INT_MAX
   \<and> uri_build (uri_set (uri_set calloc_uri SCHEME (Some ''a''))
          PATH (Some (replicate 2147483645 CHR ''p''))) = Inl Overflow
   \<and> uri_get (uri_set (uri_set calloc_uri SCHEME (Some ''a''))
          PATH (Some (replicate 2147483645 CHR ''p''))) = Inl Overflow"
  by (simp add: uri_get_def uri_build_def build_length_def add_length_def to_int_def Let_def
      uri_set_data calloc_uri_def INT_MAX_def)

section \<open>The parser\<close>

text \<open>
  Claim C4, as amended. \<open>uri_parse\<close> returns \<open>NULL\<close>, and so no store, exactly when
  the input has no \<open>:\<close>. On every input with a \<open>:\<close> and fewer than \<open>INT_MAX - 2\<close>
  characters it returns a store whose scheme slot holds the text before the first
  \<open>:\<close>; on any input, a store that it returns has that scheme. On \<open>noColonHere\<close> it
  returns \<open>NULL\<close>; on \<open>:\<close> it returns a store with an empty scheme and an empty path
  and nothing else.
\<close>

theorem uri_parse_fails_iff_no_colon:
  "(uri_parse s = Inr None \<longleftrightarrow> CHR '':'' \<notin> set s)
   \<and> (CHR '':'' \<in> set s \<and> int (length s) + 2 < INT_MAX \<longrightarrow>
        (\<exists>uri. uri_parse s = Inr (Some uri) \<and>
           data uri SCHEME = Some (takeWhile (\<lambda>c. c \<noteq> CHR '':'') s)))
   \<and> (\<forall>uri. uri_parse s = Inr (Some uri) \<longrightarrow>
        data uri SCHEME = Some (takeWhile (\<lambda>c. c \<noteq> CHR '':'') s))
   \<and> uri_parse ''noColonHere'' = Inr None
   \<and> map_sum id (map_option uri_elements) (uri_parse '':'')
       = Inr (Some [None, Some [], None, None, None, Some [], None, None])"
proof (intro conjI)
  show "uri_parse s = Inr None \<longleftrightarrow> CHR '':'' \<notin> set s"
    using uri_parse_populates [of s] uri_parse_no_colon [of s] parse_return_not_None
    by metis
  show "CHR '':'' \<in> set s \<and> int (length s) + 2 < INT_MAX \<longrightarrow>
        (\<exists>uri. uri_parse s = Inr (Some uri) \<and>
           data uri SCHEME = Some (takeWhile (\<lambda>c. c \<noteq> CHR '':'') s))"
  proof
    assume a: "CHR '':'' \<in> set s \<and> int (length s) + 2 < INT_MAX"
    then obtain early uri where p: "uri_parse s = parse_return early uri"
      and u: "data uri SCHEME = Some (takeWhile (\<lambda>c. c \<noteq> CHR '':'') s)"
      and n: "counted_length uri \<le> length s + 2"
      using uri_parse_populates [of s] by blast
    from a n have "int (counted_length uri) < INT_MAX"
      by simp
    from parse_return_counted [OF u this, of early] show
      "\<exists>uri. uri_parse s = Inr (Some uri) \<and>
           data uri SCHEME = Some (takeWhile (\<lambda>c. c \<noteq> CHR '':'') s)"
      using u by (simp add: p)
  qed
  show "\<forall>uri. uri_parse s = Inr (Some uri) \<longrightarrow>
        data uri SCHEME = Some (takeWhile (\<lambda>c. c \<noteq> CHR '':'') s)"
    using uri_parse_build_slot by blast
  show "uri_parse ''noColonHere'' = Inr None"
    by (rule uri_parse_no_colon) simp
  show "map_sum id (map_option uri_elements) (uri_parse '':'')
       = Inr (Some [None, Some [], None, None, None, Some [], None, None])"
    by (simp add: run)
qed

theorem uri_parse_fails_iff_no_colon_witness:
  "CHR '':'' \<in> set ''a:b'' \<and> int (length ''a:b'') + 2 < INT_MAX \<and>
   uri_parse ''a:b'' \<noteq> Inr None \<and>
   (\<exists>uri. uri_parse ''a:b'' = Inr (Some uri) \<and> data uri SCHEME = Some ''a'') \<and>
   map_sum id (map_option uri_elements) (uri_parse ''a:b'')
     = Inr (Some [None, Some ''a'', None, None, None, Some ''b'', None, None])"
  using uri_parse_fails_iff_no_colon [of "''a:b''"]
  by (simp add: INT_MAX_def) (simp add: run)

text \<open>
  The claim as stated has \<open>uri_parse\<close> succeed on every input with a \<open>:\<close>. On a
  scheme of \<open>INT_MAX\<close> characters followed by \<open>:/\<close> the parser reaches \<open>uri_build\<close>
  at line 296, whose counter wraps.
\<close>

theorem uri_parse_overflow_counterexample:
  "CHR '':'' \<in> set (replicate 2147483647 CHR ''a'' @ '':/'')
   \<and> uri_parse (replicate 2147483647 CHR ''a'' @ '':/'') = Inl Overflow"
proof -
  have "uri_parse (replicate 2147483647 CHR ''a'' @ '':'' @ ''/'') =
     parse_return (CHR ''/'' \<notin> set ''/'')
       (uri_set (uri_set calloc_uri SCHEME (Some (replicate 2147483647 CHR ''a'')))
          PATH (Some (takeWhile (\<lambda>c. c \<noteq> CHR ''/'') ''/'')))"
    by (rule uri_parse_no_authority) simp_all
  then show ?thesis
    by (simp add: parse_return_def uri_build_def build_length_def add_length_def to_int_def
        Let_def uri_set_data calloc_uri_def INT_MAX_def)
qed

text \<open>
  Claim C6. On \<open>http://user@host:80/path?q#f\<close> the parser returns a store with
  userinfo \<open>user\<close>, host \<open>host\<close>, port \<open>80\<close> and path \<open>/path\<close>. The claim has
  the query \<open>q\<close> and the fragment \<open>f\<close>; the parser stores \<open>?q\<close> and \<open>#f\<close>, since
  lines 272 and 283 leave \<open>current\<close> on the delimiter where lines 225 and 241 step
  over it. The builder adds its own \<open>?\<close> and \<open>#\<close>, so the \<open>BUILD\<close> slot holds both
  twice.
\<close>

theorem uri_parse_full_example:
  "\<exists>store.
     uri_parse ''http://user@host:80/path?q#f'' = Inr (Some store) \<and>
     uri_elements store =
       [Some ''http://user@host:80/path??q##f'', Some ''http'', Some ''user'', Some ''host'',
        Some ''80'', Some ''/path'', Some ''?q'', Some ''#f'']"
  by (simp add: run)

text \<open>
  Claim C1. The claim is that parsing and then \<open>uri_get\<close> give the input back when
  scheme, host, non-empty path, query and fragment are all there. On
  \<open>http://host/path?q#f\<close> the store has all five, and \<open>uri_get\<close> returns
  \<open>http://host/path??q##f\<close>: the delimiters kept by the parser are added again by
  the builder.
\<close>

theorem uri_parse_get_doubles_delimiters:
  "\<exists>store.
     uri_parse ''http://host/path?q#f'' = Inr (Some store) \<and>
     uri_elements store =
       [Some ''http://host/path??q##f'', Some ''http'', None, Some ''host'', None,
        Some ''/path'', Some ''?q'', Some ''#f''] \<and>
     map_sum id fst (uri_get store) = Inr (Some ''http://host/path??q##f'')"
  by (simp add: run)

text \<open>
  Claim C2. The claim is that every returned store has its \<open>BUILD\<close> slot filled with
  the canonical string. The returns at lines 236, 252 and 270 leave before the call of
  \<open>uri_build\<close> at line 296: on \<open>http://host\<close> the store comes back with an empty
  \<open>BUILD\<close> slot, although its canonical string is \<open>http://host\<close>.
\<close>

theorem uri_parse_returns_without_build:
  "\<exists>store.
     uri_parse ''http://host'' = Inr (Some store) \<and>
     uri_elements store = [None, Some ''http'', None, Some ''host'', None, None, None, None] \<and>
     map_sum id fst (uri_get store) = Inr (Some ''http://host'')"
  by (simp add: run)

text \<open>
  Claim C5. The claim is that without \<open>//\<close> after the scheme the path runs to the
  first \<open>?\<close>, \<open>#\<close> or the end, and query and fragment follow. The loop at line 261
  stops at \<open>/\<close> instead, where line 256 of the other branch stops at \<open>?\<close> and
  \<open>#\<close>: on \<open>a:b?c\<close> the path is \<open>b?c\<close> and there is no query; on \<open>a:b/c?d#e\<close>
  the path is \<open>b\<close> and nothing after it is stored.
\<close>

theorem uri_parse_no_authority_example:
  "(\<exists>store.
      uri_parse ''a:b?c'' = Inr (Some store) \<and>
      uri_elements store = [None, Some ''a'', None, None, None, Some ''b?c'', None, None])
   \<and> (\<exists>store.
      uri_parse ''a:b/c?d#e'' = Inr (Some store) \<and>
      uri_elements store = [Some ''a:b'', Some ''a'', None, None, None, Some ''b'', None, None])"
  by (simp add: run)

text \<open>
  Claim C9. On \<open>http://host?q\<close>, parsing and then \<open>uri_get\<close> give
  \<open>http://host?q\<close>, with no \<open>/\<close> before the \<open>?\<close>. (The scan for the end of the
  host does not stop at \<open>?\<close>, so the store holds \<open>host?q\<close> as its host and no
  query.) The builder inserts no \<open>/\<close> either when the store has a host and a query
  and no path.
\<close>

theorem uri_parse_get_missing_path:
  "(\<exists>store.
      uri_parse ''http://host?q'' = Inr (Some store) \<and>
      uri_elements store =
        [None, Some ''http'', None, Some ''host?q'', None, None, None, None] \<and>
      map_sum id fst (uri_get store) = Inr (Some ''http://host?q''))
   \<and> map_sum id fst
         (uri_get (uri_set (uri_set (uri_set calloc_uri SCHEME (Some ''http''))
            HOST (Some ''host'')) QUERY (Some ''q'')))
       = Inr (Some ''http://host?q'')"
  by (simp add: run)

section \<open>Setting, removing and the cached string\<close>

text \<open>
  Claim C8, as amended. For every store, every component (any slot name other than
  \<open>BUILD\<close>) and every value, \<open>uri_set\<close> stores the value in the named slot and
  \<open>uri_remove\<close> empties the named slot, returning \<open>NULL\<close> when the slot was empty;
  neither changes the \<open>BUILD\<close> slot or any other slot. On a store whose scheme is
  present and whose lengths, summed as \<open>uri_build\<close> sums them, stay below \<open>INT_MAX\<close>,
  \<open>uri_get\<close> returns the canonical string of the seven components, writes it into
  the \<open>BUILD\<close> slot and changes no other slot.
\<close>

theorem uri_set_remove_get_frame:
  "(e \<noteq> BUILD \<longrightarrow>
      data (uri_set u e d) BUILD = data u BUILD \<and>
      data (snd (uri_remove u e)) BUILD = data u BUILD)
   \<and> data (uri_set u e d) e = d
   \<and> data (snd (uri_remove u e)) e = None
   \<and> (\<forall>e'. e' \<noteq> e \<longrightarrow>
        data (uri_set u e d) e' = data u e' \<and> data (snd (uri_remove u e)) e' = data u e')
   \<and> (data u e = None \<longrightarrow> fst (uri_remove u e) = Null)
   \<and> (\<forall>scheme. data u SCHEME = Some scheme \<and> int (counted_length u) < INT_MAX \<longrightarrow>
        (\<exists>u'. uri_get u = Inr (Some (canonical scheme u), u') \<and>
              data u' BUILD = Some (canonical scheme u) \<and>
              (\<forall>e'. e' \<noteq> BUILD \<longrightarrow> data u' e' = data u e')))"
  by (simp add: uri_set_data uri_remove_store uri_remove_returns uri_get_scheme)

text \<open>
  The store of the witness has a path and a cached string: setting the path to \<open>/c\<close>
  or removing it leaves the cached \<open>http://a/b\<close> and the host as they are, and
  \<open>uri_get\<close> afterwards gives \<open>http://a/c\<close>.
\<close>

theorem uri_set_remove_get_frame_witness:
  "let u = uri_set (uri_set (uri_set (uri_set calloc_uri SCHEME (Some ''http''))
             HOST (Some ''a'')) PATH (Some ''/b'')) BUILD (Some ''http://a/b'');
       v = uri_set u PATH (Some ''/c'')
   in PATH \<noteq> BUILD
      \<and> uri_elements u =
          [Some ''http://a/b'', Some ''http'', None, Some ''a'', None, Some ''/b'', None, None]
      \<and> uri_elements v =
          [Some ''http://a/b'', Some ''http'', None, Some ''a'', None, Some ''/c'', None, None]
      \<and> uri_elements (snd (uri_remove u PATH)) =
          [Some ''http://a/b'', Some ''http'', None, Some ''a'', None, None, None, None]
      \<and> HOST \<noteq> PATH
      \<and> data u USERINFO = None \<and> fst (uri_remove u USERINFO) = Null
      \<and> data v SCHEME = Some ''http'' \<and> int (counted_length v) < INT_MAX
      \<and> map_sum id (\<lambda>(c, u'). (c, uri_elements u')) (uri_get v)
        = Inr (Some ''http://a/c'',
            [Some ''http://a/c'', Some ''http'', None, Some ''a'', None, Some ''/c'', None,
             None])"
  using uri_set_remove_get_frame
    [of PATH "uri_set (uri_set (uri_set (uri_set calloc_uri SCHEME (Some ''http''))
         HOST (Some ''a'')) PATH (Some ''/b'')) BUILD (Some ''http://a/b'')" "Some ''/c''"]
    uri_set_remove_get_frame
    [of USERINFO "uri_set (uri_set (uri_set (uri_set calloc_uri SCHEME (Some ''http''))
         HOST (Some ''a'')) PATH (Some ''/b'')) BUILD (Some ''http://a/b'')" None]
    uri_set_remove_get_frame
    [of PATH "uri_set (uri_set (uri_set (uri_set (uri_set calloc_uri SCHEME (Some ''http''))
         HOST (Some ''a'')) PATH (Some ''/b'')) BUILD (Some ''http://a/b''))
         PATH (Some ''/c'')" None]
  by (simp add: run uri_remove_store uri_remove_returns)

text \<open>
  The claim as stated has \<open>uri_get\<close> rebuild on every store and \<open>uri_remove\<close> return
  the former value. On the empty store \<open>uri_get\<close> reads through \<open>NULL\<close>; on a store
  whose scheme has \<open>INT_MAX\<close> characters its counter wraps; neither rebuilds. What
  \<open>uri_remove\<close> returns for a slot that held \<open>a\<close> is a pointer to storage that
  \<open>uri_set\<close> has released at line 83.
\<close>

theorem uri_get_remove_counterexample:
  "uri_get calloc_uri = Inl NullRead
   \<and> uri_get (uri_set calloc_uri SCHEME (Some (replicate 2147483647 CHR ''s''))) = Inl Overflow
   \<and> fst (uri_remove (uri_set calloc_uri HOST (Some ''a'')) HOST) = Released ''a''"
  by (simp add: uri_get_def uri_build_def build_length_def add_length_def to_int_def Let_def
      uri_set_data calloc_uri_def INT_MAX_def uri_remove_returns)

text \<open>
  Claim C7. The claim is that after \<open>uri_parse\<close> on \<open>http://a/b\<close> and \<open>uri_set\<close> of
  the path to \<open>/c\<close>, \<open>uri_print\<close> still writes the string with \<open>/b\<close>, and \<open>uri_get\<close>
  gives the string with \<open>/c\<close>. The parser reaches the end of the input after the path
  and returns at line 270 without building, so the \<open>BUILD\<close> slot is empty and
  \<open>uri_print\<close> writes nothing; \<open>uri_get\<close> then returns \<open>http://a/c\<close>.
\<close>

theorem uri_print_after_parse_and_set:
  "\<exists>store.
     uri_parse ''http://a/b'' = Inr (Some store) \<and>
     data store BUILD = None \<and>
     uri_print (uri_set store PATH (Some ''/c'')) out = out \<and>
     map_sum id fst (uri_get (uri_set store PATH (Some ''/c''))) = Inr (Some ''http://a/c'')"
  by (simp add: run)

end
